theory Spec2Isabelle
  imports Main "HOL-Library.Word"
begin

section \<open>Errors\<close>

text \<open>
  Go errors are values. The sentinel errors the code compares against are constructors;
  an error built by \<^verbatim>\<open>fmt.Errorf\<close> carries its formatted message. \<open>SyntaxError\<close> stands
  for any \<^verbatim>\<open>*json.SyntaxError\<close> (the offset-dependent message is abstracted), \<open>ReadError\<close>
  for a failure of the underlying transport with the given message.
\<close>

datatype errno = EEXIST | ENOTEMPTY | EISDIR | EOPNOTSUPP | EACCES | EIO | ENOSPC | EXDEV

datatype error =
    ErrNotSchema
  | EOF
  | ErrUnexpectedEOF
  | ErrClosed
  | ErrExist
  | Errno errno
  | SyntaxError
  | ReadError string
  | Errorf string

fun errno_string :: "errno \<Rightarrow> string" where
  "errno_string EEXIST = ''file exists''"
| "errno_string ENOTEMPTY = ''directory not empty''"
| "errno_string EISDIR = ''is a directory''"
| "errno_string EOPNOTSUPP = ''operation not supported''"
| "errno_string EACCES = ''permission denied''"
| "errno_string EIO = ''input/output error''"
| "errno_string ENOSPC = ''no space left on device''"
| "errno_string EXDEV = ''invalid cross-device link''"

text \<open>The \<^verbatim>\<open>Error()\<close> method, used by the \<^verbatim>\<open>%v\<close> verb.\<close>

fun error_string :: "error \<Rightarrow> string" where
  "error_string ErrNotSchema = ''not a schema file''"
| "error_string EOF = ''EOF''"
| "error_string ErrUnexpectedEOF = ''unexpected EOF''"
| "error_string ErrClosed = ''file already closed''"
| "error_string ErrExist = ''file already exists''"
| "error_string (Errno e) = errno_string e"
| "error_string SyntaxError = ''invalid character''"
| "error_string (ReadError m) = m"
| "error_string (Errorf m) = m"

section \<open>Schema constants\<close>

definition typeField :: string where
  "typeField = ''@type''"

definition casNS :: string where
  "casNS = ''cas:''"

definition tab :: string where
  "tab = '' ''"

definition dquote :: char where
  "dquote = CHR 0x22"

definition newline :: char where
  "newline = CHR 0x0A"

definition magic :: string where
  "magic = [CHR ''{'', newline] @ tab @ [dquote] @ typeField @ [dquote, CHR '':'']"

definition maxSize :: nat where
  "maxSize = 16 * 1024 * 1024"

definition MagicSize :: nat where
  "MagicSize = length magic"

section \<open>IsSchema\<close>

definition IsSchema :: "string \<Rightarrow> bool" where
  "IsSchema p = (if length p < MagicSize then False else take MagicSize p = magic)"

section \<open>Readers\<close>

text \<open>
  An \<^verbatim>\<open>io.Reader\<close> is modelled by what it will still deliver: the bytes \<open>avail\<close>, and the
  error \<open>fin\<close> it returns once they are exhausted (\<open>EOF\<close> for a clean end of input, any other
  error for a failing transport). The error is delivered by a read of its own, after the
  last byte. Reading passes the remaining reader on.
\<close>

record reader =
  avail :: string
  fin :: error

text \<open>
  \<^verbatim>\<open>io.ReadFull(r, buf)\<close> with \<open>len(buf) = n\<close>: on a short read the error is \<open>EOF\<close> when no
  byte was read, \<open>ErrUnexpectedEOF\<close> when some were and the input then ended cleanly, and
  the reader's own error otherwise.
\<close>

definition ReadFull :: "reader \<Rightarrow> nat \<Rightarrow> (error + string) \<times> reader" where
  "ReadFull r n =
     (if n \<le> length (avail r) then (Inr (take n (avail r)), r\<lparr>avail := drop n (avail r)\<rparr>)
      else (Inl (if fin r = EOF \<and> avail r \<noteq> [] then ErrUnexpectedEOF else fin r),
            r\<lparr>avail := []\<rparr>))"

text \<open>
  \<^verbatim>\<open>ioutil.ReadAll(io.LimitReader(r, n))\<close>: the limited reader reports \<open>EOF\<close> itself after
  \<open>n\<close> bytes, without asking \<open>r\<close> again; before that it passes the error of \<open>r\<close> through.
  The result is the data read, the error (\<open>None\<close> for nil) and what is left of \<open>r\<close>.
\<close>

definition ReadAll_LimitReader :: "reader \<Rightarrow> nat \<Rightarrow> string \<times> error option \<times> reader" where
  "ReadAll_LimitReader r n =
     (if n \<le> length (avail r) then (take n (avail r), None, r\<lparr>avail := drop n (avail r)\<rparr>)
      else (avail r, (if fin r = EOF then None else Some (fin r)), r\<lparr>avail := []\<rparr>))"

text \<open>\<^verbatim>\<open>io.MultiReader(bytes.NewReader(m), r)\<close>: the bytes of \<open>m\<close>, then \<open>r\<close>.\<close>

definition MultiReader :: "string \<Rightarrow> reader \<Rightarrow> reader" where
  "MultiReader m r = r\<lparr>avail := m @ avail r\<rparr>"

text \<open>A reader over a byte slice, ending cleanly.\<close>

definition NewReader :: "string \<Rightarrow> reader" where
  "NewReader p = \<lparr>avail = p, fin = EOF\<rparr>"

section \<open>The JSON library\<close>

text \<open>
  The schema package calls \<^verbatim>\<open>encoding/json\<close>. The model covers struct types whose
  fields are all encoded as JSON strings (Go strings, and \<^verbatim>\<open>types.Ref\<close>, whose JSON form is
  its canonical string): an encoder with \<^verbatim>\<open>SetIndent("", tab)\<close> and
  \<^verbatim>\<open>SetEscapeHTML(false)\<close>, and a decoder for objects whose member values are strings.
  Bytes from 0x80 on are copied as they are, which is what the library does for well-formed
  UTF-8; \<^verbatim>\<open>\u\<close> escapes and member values that are not strings are outside the decoder's
  model and are reported as a syntax error.
\<close>

definition backslash :: char where
  "backslash = CHR 0x5C"

definition is_space :: "char \<Rightarrow> bool" where
  "is_space c = (c = CHR '' '' \<or> c = CHR 0x09 \<or> c = CHR 0x0D \<or> c = CHR 0x0A)"

definition skip_space :: "string \<Rightarrow> string" where
  "skip_space s = dropWhile is_space s"

definition hex_digit :: "nat \<Rightarrow> char" where
  "hex_digit n = ''0123456789abcdef'' ! (n mod 16)"

definition escape_char :: "char \<Rightarrow> string" where
  "escape_char c =
     (if c = dquote then [backslash, dquote]
      else if c = backslash then [backslash, backslash]
      else if c = CHR 0x0A then [backslash, CHR ''n'']
      else if c = CHR 0x0D then [backslash, CHR ''r'']
      else if c = CHR 0x09 then [backslash, CHR ''t'']
      else if of_char c < (0x20 :: nat)
        then [backslash, CHR ''u'', CHR ''0'', CHR ''0'',
              hex_digit (of_char c div 16), hex_digit (of_char c)]
      else [c])"

definition quote_string :: "string \<Rightarrow> string" where
  "quote_string s = [dquote] @ concat (map escape_char s) @ [dquote]"

definition unescape_char :: "char \<Rightarrow> char option" where
  "unescape_char c =
     (if c = dquote then Some dquote
      else if c = backslash then Some backslash
      else if c = CHR ''/'' then Some (CHR ''/'')
      else if c = CHR ''b'' then Some (CHR 0x08)
      else if c = CHR ''f'' then Some (CHR 0x0C)
      else if c = CHR ''n'' then Some (CHR 0x0A)
      else if c = CHR ''r'' then Some (CHR 0x0D)
      else if c = CHR ''t'' then Some (CHR 0x09)
      else None)"

fun string_lit :: "string \<Rightarrow> (string \<times> string) option" where
  "string_lit [] = None"
| "string_lit (c # cs) =
     (if c = dquote then Some ([], cs)
      else if c = backslash then
        (case cs of
           [] \<Rightarrow> None
         | e # cs' \<Rightarrow>
             (case unescape_char e of
                None \<Rightarrow> None
              | Some d \<Rightarrow>
                  (case string_lit cs' of
                     None \<Rightarrow> None
                   | Some (v, r) \<Rightarrow> Some (d # v, r))))
      else if of_char c < (0x20 :: nat) then None
      else (case string_lit cs of
              None \<Rightarrow> None
            | Some (v, r) \<Rightarrow> Some (c # v, r)))"

lemma skip_space_length: "length (skip_space s) \<le> length s"
  by (simp add: skip_space_def length_dropWhile_le)

lemma string_lit_length: "string_lit s = Some (v, r) \<Longrightarrow> length r < length s"
proof (induction s arbitrary: v r rule: string_lit.induct)
  case 1
  then show ?case by simp
next
  case (2 c cs)
  then show ?case
    by (auto split: if_splits list.splits option.splits prod.splits) fastforce+
qed

text \<open>
  The members of an object, after the opening brace: a key, a colon, a string value, then
  a comma and more members, or the closing brace. The rest of the input is returned.
\<close>

function members :: "string \<Rightarrow> ((string \<times> string) list \<times> string) option" where
  "members s =
     (case skip_space s of
        [] \<Rightarrow> None
      | c1 # s1 \<Rightarrow>
          if c1 \<noteq> dquote then None
          else (case string_lit s1 of
             None \<Rightarrow> None
           | Some (k, s2) \<Rightarrow>
               (case skip_space s2 of
                  [] \<Rightarrow> None
                | c2 # s3 \<Rightarrow>
                    if c2 \<noteq> CHR '':'' then None
                    else (case skip_space s3 of
                       [] \<Rightarrow> None
                     | c3 # s4 \<Rightarrow>
                         if c3 \<noteq> dquote then None
                         else (case string_lit s4 of
                            None \<Rightarrow> None
                          | Some (v, s5) \<Rightarrow>
                              (case skip_space s5 of
                                 [] \<Rightarrow> None
                               | c5 # s6 \<Rightarrow>
                                   if c5 = CHR '','' then
                                     (case members s6 of
                                        None \<Rightarrow> None
                                      | Some (ms, r) \<Rightarrow> Some ((k, v) # ms, r))
                                   else if c5 = CHR ''}'' then Some ([(k, v)], s6)
                                   else None))))))"
  by pat_completeness auto

termination
proof (relation "measure length", goal_cases)
  case 1
  then show ?case by simp
next
  case (2 s c1 s1 kr k s2 c2 s3 c3 s4 vr v s5 c5 s6)
  have a: "length s1 < length s"
    using skip_space_length [of s] 2(1) by simp
  have b: "length s2 < length s1"
    using string_lit_length 2 by metis
  have c: "length s3 < length s2"
    using skip_space_length [of s2] 2 by simp
  have d: "length s4 < length s3"
    using skip_space_length [of s3] 2 by simp
  have e: "length s5 < length s4"
    using string_lit_length 2 by metis
  have f: "length s6 < length s5"
    using skip_space_length [of s5] 2 by simp
  show ?case using a b c d e f by simp
qed

text \<open>A whole document: one object, and only white space after it.\<close>

definition json_object :: "string \<Rightarrow> (string \<times> string) list option" where
  "json_object data =
     (case skip_space data of
        [] \<Rightarrow> None
      | c # s1 \<Rightarrow>
          if c \<noteq> CHR ''{'' then None
          else (case skip_space s1 of
             [] \<Rightarrow> None
           | c2 # s2 \<Rightarrow>
               if c2 = CHR ''}'' then (if skip_space s2 = [] then Some [] else None)
               else (case members s1 of
                  None \<Rightarrow> None
                | Some (ms, r) \<Rightarrow> if skip_space r = [] then Some ms else None)))"


text \<open>ASCII case folding, as \<^verbatim>\<open>encoding/json\<close> matches member names to fields.\<close>

definition lower :: "char \<Rightarrow> char" where
  "lower c = (if (0x41 :: nat) \<le> of_char c \<and> of_char c \<le> (0x5A :: nat)
              then char_of (of_char c + (0x20 :: nat)) else c)"

definition equalFold :: "string \<Rightarrow> string \<Rightarrow> bool" where
  "equalFold a b = (map lower a = map lower b)"

fun field_index :: "('a \<Rightarrow> bool) \<Rightarrow> 'a list \<Rightarrow> nat option" where
  "field_index P [] = None"
| "field_index P (x # xs) = (if P x then Some 0 else map_option Suc (field_index P xs))"

text \<open>An exact match of the member name wins over a case-insensitive one.\<close>

definition find_field :: "string list \<Rightarrow> string \<Rightarrow> nat option" where
  "find_field keys k =
     (case field_index (\<lambda>f. f = k) keys of
        Some i \<Rightarrow> Some i
      | None \<Rightarrow> field_index (\<lambda>f. equalFold f k) keys)"

section \<open>Objects and the type registry\<close>

text \<open>
  A \<^verbatim>\<open>reflect.Type\<close> of a struct: its name and the JSON keys of its fields, in declaration
  order. An object is a value of such a type: one string per field.
\<close>

record rtype =
  tname :: string
  json_keys :: "string list"

record Object =
  otype :: rtype
  vals :: "string list"

text \<open>\<^verbatim>\<open>reflect.New(rt)\<close>: the zero value, every field the empty string.\<close>

definition zero_value :: "rtype \<Rightarrow> Object" where
  "zero_value rt = \<lparr>otype = rt, vals = replicate (length (json_keys rt)) []\<rparr>"

fun indent_members :: "(string \<times> string) list \<Rightarrow> string" where
  "indent_members [] = []"
| "indent_members [(k, v)] = [newline] @ tab @ quote_string k @ '': '' @ quote_string v"
| "indent_members ((k, v) # m # ms) =
     [newline] @ tab @ quote_string k @ '': '' @ quote_string v @ '','' @ indent_members (m # ms)"

text \<open>\<^verbatim>\<open>enc.Encode(o)\<close>: the indented object, then a newline. It cannot fail on these types.\<close>

definition json_Encode :: "Object \<Rightarrow> error + string" where
  "json_Encode ob =
     (let ms = zip (json_keys (otype ob)) (vals ob)
      in Inr ((if ms = [] then ''{}'' else ''{'' @ indent_members ms @ [newline] @ ''}'')
              @ [newline]))"

definition assign :: "string \<times> string \<Rightarrow> Object \<Rightarrow> Object" where
  "assign m ob =
     (case find_field (json_keys (otype ob)) (fst m) of
        None \<Rightarrow> ob
      | Some i \<Rightarrow> ob\<lparr>vals := (vals ob)[i := snd m]\<rparr>)"

text \<open>
  \<^verbatim>\<open>json.Unmarshal(data, obj)\<close>: the document is checked first; members are assigned in
  order (a later duplicate overwrites), members with no matching field are skipped.
\<close>

definition json_Unmarshal :: "string \<Rightarrow> Object \<Rightarrow> error + Object" where
  "json_Unmarshal data ob =
     (case json_object data of
        None \<Rightarrow> Inl SyntaxError
      | Some ms \<Rightarrow> Inr (fold assign ms ob))"

text \<open>
  The two maps of the registry. Registration takes the struct type itself (the source
  first strips the pointer from the type of the object it is given).
\<close>

record registry =
  typesMap :: "string \<rightharpoonup> rtype"
  typeToName :: "rtype \<rightharpoonup> string"

definition empty_registry :: registry where
  "empty_registry = \<lparr>typesMap = Map.empty, typeToName = Map.empty\<rparr>"


definition registerCAS :: "rtype \<Rightarrow> registry \<Rightarrow> registry" where
  "registerCAS rt reg =
     (let name = casNS @ tname rt
      in reg\<lparr>typesMap := (typesMap reg)(name \<mapsto> rt),
             typeToName := (typeToName reg)(rt \<mapsto> name)\<rparr>)"

definition TypeOf :: "registry \<Rightarrow> Object \<Rightarrow> error + string" where
  "TypeOf reg ob =
     (case typeToName reg (otype ob) of
        None \<Rightarrow> Inl (Errorf (''unsupported schema type: '' @ tname (otype ob)))
      | Some name \<Rightarrow> Inr name)"

definition NewType :: "registry \<Rightarrow> string \<Rightarrow> error + Object" where
  "NewType reg typ =
     (case typesMap reg typ of
        None \<Rightarrow> Inl (Errorf (''unsupported schema type: '' @ quote_string typ))
      | Some rt \<Rightarrow> Inr (zero_value rt))"

text \<open>
  The transform record of the pipeline file, with its fields \<open>Src\<close>, \<open>Op\<close> and \<open>Dst\<close>, and
  its dependency edges.
\<close>

definition TransformOp :: rtype where
  "TransformOp = \<lparr>tname = ''TransformOp'', json_keys = [''src'', ''op'', ''dst'']\<rparr>"


section \<open>Encode and Decode\<close>

text \<open>
  \<open>Encode\<close> writes into an in-memory buffer, so the final \<^verbatim>\<open>w.Write(p)\<close> succeeds and the
  result is the bytes written. \<open>p[i] = ','\<close> overwrites the first byte the JSON encoder
  produced.
\<close>

definition Encode :: "registry \<Rightarrow> Object \<Rightarrow> error + string" where
  "Encode reg ob =
     (case TypeOf reg ob of
        Inl err \<Rightarrow> Inl err
      | Inr typ \<Rightarrow>
          (let buf = magic @ [CHR '' '', dquote] @ typ @ [dquote];
               i = length buf
           in case json_Encode ob of
                Inl err \<Rightarrow>
                  Inl (Errorf (''failed to encode '' @ tname (otype ob) @ '': '' @ error_string err))
              | Inr js \<Rightarrow> Inr ((buf @ js)[i := CHR '',''])))"

text \<open>\<open>checkSchema\<close> returns a nil reader together with every error.\<close>

definition checkSchema :: "reader \<Rightarrow> error + reader" where
  "checkSchema r =
     (case ReadFull r MagicSize of
        (Inl err, r') \<Rightarrow>
          if err = EOF \<or> err = ErrUnexpectedEOF then Inl ErrNotSchema
          else Inl (Errorf (''cannot check schema object: '' @ error_string err))
      | (Inr m, r') \<Rightarrow>
          if \<not> IsSchema m then Inl ErrNotSchema else Inr (MultiReader m r'))"

text \<open>The header struct of \<open>decodeType\<close>: one field, tagged \<^verbatim>\<open>json:"@type"\<close>.\<close>

definition header :: rtype where
  "header = \<lparr>tname = ''struct'', json_keys = [typeField]\<rparr>"

text \<open>\<open>decodeType\<close> also hands back what is left of the reader it was given.\<close>

definition decodeType :: "reader \<Rightarrow> (error + string \<times> string) \<times> reader" where
  "decodeType r =
     (case ReadAll_LimitReader r maxSize of
        (data, Some err, r') \<Rightarrow> (Inl err, r')
      | (data, None, r') \<Rightarrow>
          if length data = maxSize then (Inl (Errorf ''schema object is too large''), r')
          else (case json_Unmarshal data (zero_value header) of
                  Inl err \<Rightarrow> (Inl err, r')
                | Inr h \<Rightarrow> (Inr (vals h ! 0, data), r')))"

definition decode :: "registry \<Rightarrow> reader \<Rightarrow> error + Object" where
  "decode reg r =
     (case fst (decodeType r) of
        Inl err \<Rightarrow> Inl err
      | Inr (typ, data) \<Rightarrow>
          (case NewType reg typ of
             Inl err \<Rightarrow> Inl err
           | Inr ob \<Rightarrow>
               (case json_Unmarshal data ob of
                  Inl err \<Rightarrow> Inl err
                | Inr ob' \<Rightarrow> Inr ob')))"

definition DecodeJSON :: "registry \<Rightarrow> reader \<Rightarrow> error + Object" where
  "DecodeJSON reg r =
     (case decode reg r of
        Inl err \<Rightarrow> Inl (Errorf (''cannot decode schema object: '' @ error_string err))
      | Inr ob \<Rightarrow> Inr ob)"

definition Decode :: "registry \<Rightarrow> reader \<Rightarrow> error + Object" where
  "Decode reg r =
     (case checkSchema r of
        Inl err \<Rightarrow> Inl err
      | Inr r' \<Rightarrow> DecodeJSON reg r')"

definition DecodeType :: "reader \<Rightarrow> error + string" where
  "DecodeType r =
     (case checkSchema r of
        Inl err \<Rightarrow> Inl err
      | Inr r' \<Rightarrow>
          (case fst (decodeType r') of
             Inl err \<Rightarrow> Inl err
           | Inr (typ, data) \<Rightarrow> Inr typ))"

text \<open>
  \<open>PeekType\<close> returns three values in every case: the reader (\<open>None\<close> is nil), the type
  and the error (\<open>None\<close> is nil). On an error of \<open>decodeType\<close> the data it returns is nil,
  so the new reader starts with no replayed bytes.
\<close>

definition PeekType :: "reader \<Rightarrow> reader option \<times> string \<times> error option" where
  "PeekType r =
     (case checkSchema r of
        Inl err \<Rightarrow> (None, [], Some err)
      | Inr r1 \<Rightarrow>
          (case decodeType r1 of
             (Inl err, r2) \<Rightarrow> (Some (MultiReader [] r2), [], Some err)
           | (Inr (typ, data), r2) \<Rightarrow> (Some (MultiReader data r2), typ, None)))"

section \<open>The offset of the type name\<close>

fun index_of_nth :: "char \<Rightarrow> nat \<Rightarrow> string \<Rightarrow> nat option" where
  "index_of_nth c n [] = None"
| "index_of_nth c n (x # xs) =
     (if x = c then (case n of 0 \<Rightarrow> Some 0 | Suc m \<Rightarrow> map_option Suc (index_of_nth c m xs))
      else map_option Suc (index_of_nth c n xs))"

text \<open>
  The specification's measure of the magic prefix: the offset, in a schema blob, of the
  opening quote of the value of the type field. The key \<^verbatim>\<open>"@type"\<close> holds the first two
  double quotes of the blob, so this is the offset of the third.
\<close>

definition type_value_offset :: "string \<Rightarrow> nat option" where
  "type_value_offset p = index_of_nth dquote (Suc (Suc 0)) p"

text \<open>Compact JSON with a type field, but without the layout of the magic.\<close>

definition pin_json :: string where
  "pin_json = ''{'' @ [dquote] @ ''@type'' @ [dquote] @ '':'' @ [dquote] @ ''cas:Pin'' @ [dquote]
     @ '','' @ [dquote] @ ''id'' @ [dquote] @ '':'' @ [dquote] @ ''x'' @ [dquote] @ ''}''"

text \<open>A registry holding the transform record, a transform record and its encoding.\<close>

definition sample_registry :: registry where
  "sample_registry = registerCAS TransformOp empty_registry"

definition sample_transform :: Object where
  "sample_transform = \<lparr>otype = TransformOp, vals = [''RefA'', ''RefB'', ''RefC'']\<rparr>"

definition sample_blob :: string where
  "sample_blob =
     ''{'' @ [newline] @ '' '' @ [dquote] @ ''@type'' @ [dquote] @ '': ''
       @ [dquote] @ ''cas:TransformOp'' @ [dquote] @ '','' @ [newline]
     @ '' '' @ [dquote] @ ''src'' @ [dquote] @ '': '' @ [dquote] @ ''RefA'' @ [dquote] @ '',''
       @ [newline]
     @ '' '' @ [dquote] @ ''op'' @ [dquote] @ '': '' @ [dquote] @ ''RefB'' @ [dquote] @ '',''
       @ [newline]
     @ '' '' @ [dquote] @ ''dst'' @ [dquote] @ '': '' @ [dquote] @ ''RefC'' @ [dquote]
       @ [newline] @ ''}'' @ [newline]"

section \<open>Hashing a file\<close>

text \<open>
  \<^verbatim>\<open>types.Ref\<close> is declared outside these sources, so a Ref is a type parameter here; the
  hash of a byte sequence (\<^verbatim>\<open>types.NewRef().Hash()\<close>, fed by \<^verbatim>\<open>io.Copy\<close>, then
  \<^verbatim>\<open>WithHash\<close>) and the test \<^verbatim>\<open>Ref.Zero()\<close> are parameters of \<open>HashWith\<close>.
\<close>

record 'ref SizedRef =
  Ref :: 'ref
  Size :: "64 word"

text \<open>
  What the calls of \<open>HashWith\<close> into the operating system and into the rest of the package
  return: \<^verbatim>\<open>os.Open(path)\<close> (the open file is a reader over its bytes),
  \<^verbatim>\<open>StatFile(ctx, f)\<close> and \<^verbatim>\<open>SaveRefFile(ctx, f, info, ref)\<close>.
\<close>

record 'ref hash_env =
  os_Open :: "error + reader"
  StatFile :: "error + 'ref SizedRef"
  SaveRefFile :: "error option"

text \<open>\<^verbatim>\<open>io.Copy(h, f)\<close> into a hash, which never fails to write: the count and the error.\<close>

definition io_Copy :: "reader \<Rightarrow> nat \<times> error option" where
  "io_Copy f = (length (avail f), if fin f = EOF then None else Some (fin f))"

text \<open>The second component of the result is what \<^verbatim>\<open>log.Println\<close> printed.\<close>

definition HashWith ::
  "(string \<Rightarrow> 'ref) \<Rightarrow> ('ref \<Rightarrow> bool) \<Rightarrow> 'ref hash_env \<Rightarrow> bool
     \<Rightarrow> (error + 'ref SizedRef) \<times> error list" where
  "HashWith hash Zero env force =
     (case os_Open env of
        Inl err \<Rightarrow> (Inl err, [])
      | Inr f \<Rightarrow>
          (case (if \<not> force
                 then (case StatFile env of
                         Inl err \<Rightarrow> None
                       | Inr sr \<Rightarrow> if \<not> Zero (Ref sr) then Some sr else None)
                 else None) of
             Some sr \<Rightarrow> (Inr sr, [])
           | None \<Rightarrow>
               (case io_Copy f of
                  (n, Some err) \<Rightarrow> (Inl err, [])
                | (n, None) \<Rightarrow>
                    (let ref = hash (avail f)
                     in (Inr \<lparr>Ref = ref, Size = of_nat n\<rparr>,
                         case SaveRefFile env of Some err \<Rightarrow> [err] | None \<Rightarrow> [])))))"

section \<open>The local storage engine\<close>

text \<open>
  The blob directory is a list of entries, a name and the file linked under it. A staged
  file has its bytes and its permission bits.
\<close>

record os_File =
  content :: string
  perm :: nat

record Storage =
  blobDir :: "(string \<times> os_File) list"

text \<open>The field \<open>f\<close> of the temp file: \<open>None\<close> is nil, after \<open>Close\<close> or \<open>Commit\<close>.\<close>

record linuxTmpFile =
  tmpf :: "os_File option"

text \<open>
  Modelled from the spec: the constant \<open>roPerm\<close> is declared outside these sources; a
  committed blob is permission-marked read-only.
\<close>

definition roPerm :: nat where
  "roPerm = 4 * 64 + 4 * 8 + 4"

text \<open>
  What the steps of \<open>Commit\<close> that leave the process return: \<open>SaveRefFile\<close> and
  \<open>addNotIndexed\<close> (both declared outside these sources; they write the memoization
  index, not the blob directory), \<^verbatim>\<open>unix.Fchmod\<close>, a failure of \<^verbatim>\<open>unix.Linkat\<close> for a
  reason other than the name being taken, and the final \<open>Close\<close>.
\<close>

record commit_env =
  SaveRefFile_err :: "error option"
  Fchmod_err :: "errno option"
  Linkat_fault :: "errno option"
  addNotIndexed_err :: "error option"
  Close_err :: "error option"

text \<open>
  \<^verbatim>\<open>linkat(2)\<close>: the name is looked up first, and an existing name is \<open>EEXIST\<close>; the link is
  created in one step, with no separate existence check.
\<close>

definition Linkat ::
  "errno option \<Rightarrow> (string \<times> os_File) list \<Rightarrow> string \<Rightarrow> os_File
     \<Rightarrow> errno option \<times> (string \<times> os_File) list" where
  "Linkat fault dir name fl =
     (if name \<in> set (map fst dir) then (Some EEXIST, dir)
      else (case fault of
              Some e \<Rightarrow> (Some e, dir)
            | None \<Rightarrow> (None, dir @ [(name, fl)])))"

definition linkFile ::
  "errno option \<Rightarrow> (string \<times> os_File) list \<Rightarrow> string \<Rightarrow> os_File
     \<Rightarrow> error option \<times> (string \<times> os_File) list" where
  "linkFile fault dir name fl =
     (case Linkat fault dir name fl of
        (Some e, dir') \<Rightarrow> if e = EEXIST then (Some ErrExist, dir') else (Some (Errno e), dir')
      | (None, dir') \<Rightarrow> (None, dir'))"

text \<open>\<^verbatim>\<open>os.IsExist\<close>.\<close>

definition IsExist :: "error \<Rightarrow> bool" where
  "IsExist err = (err = ErrExist \<or> err = Errno EEXIST \<or> err = Errno ENOTEMPTY)"

text \<open>
  \<open>Commit\<close>, with the canonical name \<open>ref.String()\<close> as \<open>name\<close>. It returns the error
  (\<open>None\<close> is nil), the temp file and the storage.
\<close>

definition Commit ::
  "commit_env \<Rightarrow> string \<Rightarrow> linuxTmpFile \<times> Storage
     \<Rightarrow> error option \<times> linuxTmpFile \<times> Storage" where
  "Commit env name fs =
     (case fs of (tf, s) \<Rightarrow>
        (case tmpf tf of
           None \<Rightarrow> (Some ErrClosed, tf, s)
         | Some tmp \<Rightarrow>
             (let tf' = tf\<lparr>tmpf := None\<rparr>
              in case SaveRefFile_err env of
                   Some err \<Rightarrow> (Some (Errorf (''save ref: '' @ error_string err)), tf', s)
                 | None \<Rightarrow>
                     (case Fchmod_err env of
                        Some e \<Rightarrow> (Some (Errorf (''fchmod: '' @ errno_string e)), tf', s)
                      | None \<Rightarrow>
                          (case linkFile (Linkat_fault env) (blobDir s) name
                                  (tmp\<lparr>perm := roPerm\<rparr>) of
                             (Some err, dir') \<Rightarrow>
                               if IsExist err then (None, tf', s\<lparr>blobDir := dir'\<rparr>)
                               else (Some (Errorf (''linkat: '' @ error_string err
                                                    @ '' (syscall.Errno)'')),
                                     tf', s\<lparr>blobDir := dir'\<rparr>)
                           | (None, dir') \<Rightarrow>
                               (case addNotIndexed_err env of
                                  Some err \<Rightarrow> (Some err, tf', s\<lparr>blobDir := dir'\<rparr>)
                                | None \<Rightarrow> (Close_err env, tf', s\<lparr>blobDir := dir'\<rparr>)))))))"

text \<open>The number of blobs stored under a name.\<close>

definition stored :: "Storage \<Rightarrow> string \<Rightarrow> nat" where
  "stored s name = length (filter (\<lambda>e. fst e = name) (blobDir s))"

section \<open>Choosing the temp file strategy\<close>

text \<open>
  \<open>tmpFile\<close> runs in many goroutines against the one flag \<open>noTmpFile\<close>. A call is up to
  three atomic actions: the load of the flag, \<^verbatim>\<open>unix.Open\<close> with \<^verbatim>\<open>O_TMPFILE\<close>, and
  (after \<open>EISDIR\<close>) the store of the flag; actions of different goroutines interleave.
  A goroutine is idle, or between the load and the open, or between the open and the store,
  or has returned from its last call with the strategy that call chose.
\<close>

datatype strategy = Anonymous | Fallback | Failed

datatype pc = Idle | Opening | Storing | Returned strategy

record proc =
  noTmpFile :: "32 word"
  pcs :: "nat \<Rightarrow> pc"
  opens :: nat

text \<open>
  One action of goroutine \<open>t\<close>; \<open>res\<close> is what \<^verbatim>\<open>unix.Open\<close> returns if this action is the
  open (\<open>None\<close> is success). \<open>opens\<close> counts the attempts of the anonymous strategy.
\<close>

definition tmpFile_step :: "nat \<times> errno option \<Rightarrow> proc \<Rightarrow> proc" where
  "tmpFile_step ev s =
     (case ev of (t, res) \<Rightarrow>
        (case pcs s t of
           Opening \<Rightarrow>
             (case res of
                None \<Rightarrow> s\<lparr>pcs := (pcs s)(t := Returned Anonymous), opens := opens s + 1\<rparr>
              | Some e \<Rightarrow>
                  if e = EISDIR then s\<lparr>pcs := (pcs s)(t := Storing), opens := opens s + 1\<rparr>
                  else if e = EOPNOTSUPP
                    then s\<lparr>pcs := (pcs s)(t := Returned Fallback), opens := opens s + 1\<rparr>
                  else s\<lparr>pcs := (pcs s)(t := Returned Failed), opens := opens s + 1\<rparr>)
         | Storing \<Rightarrow> s\<lparr>noTmpFile := 1, pcs := (pcs s)(t := Returned Fallback)\<rparr>
         | _ \<Rightarrow>
             if noTmpFile s \<noteq> 0 then s\<lparr>pcs := (pcs s)(t := Returned Fallback)\<rparr>
             else s\<lparr>pcs := (pcs s)(t := Opening)\<rparr>))"

definition run :: "(nat \<times> errno option) list \<Rightarrow> proc \<Rightarrow> proc" where
  "run evs s = fold tmpFile_step evs s"

text \<open>The start of a process: the flag is zero and every goroutine idle.\<close>

definition proc_init :: proc where
  "proc_init = \<lparr>noTmpFile = 0, pcs = (\<lambda>t. Idle), opens = 0\<rparr>"

text \<open>A file of five bytes whose memoization entry is neither found nor can be saved.\<close>

definition sample_hash_env :: "string hash_env" where
  "sample_hash_env = \<lparr>os_Open = Inr (NewReader ''hello''), StatFile = Inl (Errorf ''no record''),
     SaveRefFile = Some (Errorf ''cannot save ref'')\<rparr>"

text \<open>Sample outcomes of the steps of \<open>Commit\<close>, a staged file and an empty store.\<close>

definition ok_env :: commit_env where
  "ok_env = \<lparr>SaveRefFile_err = None, Fchmod_err = None, Linkat_fault = None,
     addNotIndexed_err = None, Close_err = None\<rparr>"

definition lost_index_env :: commit_env where
  "lost_index_env = \<lparr>SaveRefFile_err = None, Fchmod_err = None, Linkat_fault = None,
     addNotIndexed_err = Some (Errorf ''cannot index''), Close_err = None\<rparr>"

definition close_fails_env :: commit_env where
  "close_fails_env = \<lparr>SaveRefFile_err = None, Fchmod_err = None, Linkat_fault = None,
     addNotIndexed_err = None, Close_err = Some (Errno EIO)\<rparr>"

definition fchmod_fails_env :: commit_env where
  "fchmod_fails_env = \<lparr>SaveRefFile_err = None, Fchmod_err = Some EACCES, Linkat_fault = None,
     addNotIndexed_err = None, Close_err = None\<rparr>"

definition staged :: linuxTmpFile where
  "staged = \<lparr>tmpf = Some \<lparr>content = ''hello'', perm = 6 * 64\<rparr>\<rparr>"

definition empty_store :: Storage where
  "empty_store = \<lparr>blobDir = []\<rparr>"

text \<open>
  Goroutine 0 after the load of the flag, after \<open>EISDIR\<close> from the open, and after the
  store.
\<close>

definition opening0 :: proc where
  "opening0 = run [(0, None)] proc_init"

definition storing0 :: proc where
  "storing0 = run [(0, None), (0, Some EISDIR)] proc_init"

definition switched :: proc where
  "switched = run [(0, None), (0, Some EISDIR), (0, None)] proc_init"

section \<open>Plain objects\<close>










section \<open>Properties\<close>

lemma MagicSize_eq: "MagicSize = 11"
  by (simp add: MagicSize_def magic_def tab_def typeField_def)

text \<open>
  Claim C6. \<open>IsSchema p\<close> is true exactly when \<open>p\<close> has at least \<open>MagicSize\<close> bytes and its
  first \<open>MagicSize\<close> bytes equal the magic template; a buffer shorter than \<open>MagicSize\<close> is
  never a schema blob.
\<close>

theorem IsSchema_iff:
  "IsSchema p = (MagicSize \<le> length p \<and> take MagicSize p = magic)
   \<and> (length p < MagicSize \<longrightarrow> \<not> IsSchema p)"
  by (auto simp: IsSchema_def)

theorem IsSchema_iff_witness:
  "IsSchema ''{'' = (MagicSize \<le> length ''{'' \<and> take MagicSize ''{'' = magic)
   \<and> length ''{'' < MagicSize \<and> \<not> IsSchema ''{''"
  using IsSchema_iff [of "''{''"] by (simp add: MagicSize_eq)

subsection \<open>The magic check\<close>

lemma magic_length: "length magic = MagicSize"
  by (simp add: MagicSize_def)

lemma IsSchema_magic_append: "IsSchema (magic @ rest)"
  by (simp add: IsSchema_def magic_length)

lemma checkSchema_ok:
  assumes "IsSchema (avail r)"
  shows "checkSchema r = Inr r"
proof -
  from assms have len: "MagicSize \<le> length (avail r)"
    by (simp add: IsSchema_def split: if_splits)
  have "MultiReader (take MagicSize (avail r)) (r\<lparr>avail := drop MagicSize (avail r)\<rparr>) = r"
    by (simp add: MultiReader_def)
  moreover have "IsSchema (take MagicSize (avail r))"
    using assms len by (simp add: IsSchema_def magic_length split: if_splits)
  ultimately show ?thesis using len
    by (simp add: checkSchema_def ReadFull_def)
qed

lemma checkSchema_short:
  assumes "length (avail r) < MagicSize" "fin r = EOF \<or> fin r = ErrUnexpectedEOF"
  shows "checkSchema r = Inl ErrNotSchema"
  using assms by (auto simp: checkSchema_def ReadFull_def)

lemma checkSchema_mismatch:
  assumes "MagicSize \<le> length (avail r)" "take MagicSize (avail r) \<noteq> magic"
  shows "checkSchema r = Inl ErrNotSchema"
  using assms by (simp add: checkSchema_def ReadFull_def IsSchema_def)

lemma decodeType_large:
  assumes "maxSize \<le> length (avail r)"
  shows "decodeType r =
    (Inl (Errorf ''schema object is too large''), r\<lparr>avail := drop maxSize (avail r)\<rparr>)"
  using assms by (simp add: decodeType_def ReadAll_LimitReader_def)

lemma decodeType_small:
  assumes "length (avail r) < maxSize" "fin r = EOF"
  shows "decodeType r =
     (case json_Unmarshal (avail r) (zero_value header) of
        Inl err \<Rightarrow> (Inl err, r\<lparr>avail := []\<rparr>)
      | Inr h \<Rightarrow> (Inr (vals h ! 0, avail r), r\<lparr>avail := []\<rparr>))"
  using assms by (simp add: decodeType_def ReadAll_LimitReader_def)

text \<open>
  Claim C7. A stream that ends (cleanly, or after a truncated read) before \<open>MagicSize\<close>
  bytes were read, or whose first \<open>MagicSize\<close> bytes differ from the magic template, makes
  \<open>Decode\<close> and \<open>DecodeType\<close> fail with \<open>ErrNotSchema\<close>; compact JSON with a type field is
  such a stream.
\<close>

theorem Decode_not_schema:
  assumes "(length (avail r) < MagicSize \<and> (fin r = EOF \<or> fin r = ErrUnexpectedEOF))
           \<or> (MagicSize \<le> length (avail r) \<and> take MagicSize (avail r) \<noteq> magic)"
  shows "Decode reg r = Inl ErrNotSchema \<and> DecodeType r = Inl ErrNotSchema"
  using assms checkSchema_short [of r] checkSchema_mismatch [of r]
  by (auto simp: Decode_def DecodeType_def)

theorem Decode_not_schema_witness:
  "Decode empty_registry (NewReader pin_json) = Inl ErrNotSchema
   \<and> DecodeType (NewReader pin_json) = Inl ErrNotSchema
   \<and> Decode empty_registry (NewReader ''{'') = Inl ErrNotSchema
   \<and> DecodeType \<lparr>avail = [], fin = EOF\<rparr> = Inl ErrNotSchema"
  using Decode_not_schema [of "NewReader pin_json" empty_registry]
    Decode_not_schema [of "NewReader ''{''" empty_registry]
    Decode_not_schema [of "\<lparr>avail = [], fin = EOF\<rparr>" empty_registry]
  by (simp add: NewReader_def pin_json_def MagicSize_eq magic_def tab_def typeField_def
      dquote_def newline_def)

text \<open>
  Claim C8. A stream that passes the magic check and holds more than \<open>maxSize\<close> (16 MiB)
  bytes makes \<open>Decode\<close> fail with the too-large error (wrapped by \<open>DecodeJSON\<close>), which is
  neither \<open>ErrNotSchema\<close> nor a JSON syntax error.
\<close>

theorem Decode_too_large:
  assumes "IsSchema (avail r)" "maxSize < length (avail r)"
  shows "Decode reg r = Inl (Errorf ''cannot decode schema object: schema object is too large'')
         \<and> DecodeType r = Inl (Errorf ''schema object is too large'')"
  using assms checkSchema_ok [of r] decodeType_large [of r]
  by (simp add: Decode_def DecodeType_def DecodeJSON_def decode_def)

theorem Decode_too_large_witness:
  "length (magic @ replicate (maxSize - 10) (CHR ''x'')) = maxSize + 1
   \<and> Decode empty_registry (NewReader (magic @ replicate (maxSize - 10) (CHR ''x'')))
       = Inl (Errorf ''cannot decode schema object: schema object is too large'')"
proof -
  have len: "length (magic @ replicate (maxSize - 10) (CHR ''x'')) = maxSize + 1"
    by (simp add: magic_length MagicSize_eq maxSize_def)
  have sch: "IsSchema (avail (NewReader (magic @ replicate (maxSize - 10) (CHR ''x''))))"
    by (simp add: NewReader_def IsSchema_magic_append)
  have big: "maxSize < length (avail (NewReader (magic @ replicate (maxSize - 10) (CHR ''x''))))"
    using len by (simp add: NewReader_def)
  show ?thesis using Decode_too_large [OF sch big, of empty_registry] len by simp
qed

subsection \<open>The layout of an encoded blob\<close>

lemma Encode_layout:
  assumes "Encode reg ob = Inr p"
  shows "\<exists>tn rest. TypeOf reg ob = Inr tn
           \<and> p = magic @ [CHR '' '', dquote] @ tn @ [dquote, CHR '',''] @ rest"
  using assms
  by (auto simp: Encode_def json_Encode_def Let_def list_update_append
      split: sum.splits if_splits)

text \<open>
  Claim C5, as the code has it. \<open>MagicSize\<close> is 11, the length of the template that ends
  with the colon after the key. The first \<open>MagicSize\<close> bytes of every encoded blob are the
  template; one space follows, and the opening quote of the type name is at offset
  \<open>MagicSize + 1\<close>.
\<close>

theorem MagicSize_layout:
  assumes "Encode reg ob = Inr p"
  shows "MagicSize = 11 \<and> take MagicSize p = magic \<and> p ! MagicSize = CHR '' ''
         \<and> p ! (MagicSize + 1) = dquote \<and> type_value_offset p = Some (MagicSize + 1)"
proof -
  from Encode_layout [OF assms] obtain tn rest where
    p: "p = magic @ [CHR '' '', dquote] @ tn @ [dquote, CHR '',''] @ rest" by blast
  have "take MagicSize p = magic"
    by (simp add: p magic_length)
  moreover have "p ! MagicSize = CHR '' ''" "p ! (MagicSize + 1) = dquote"
    by (simp_all add: p nth_append magic_length)
  moreover have "type_value_offset p = Some (MagicSize + 1)"
    by (simp add: p type_value_offset_def MagicSize_eq magic_def tab_def typeField_def
        dquote_def newline_def)
  ultimately show ?thesis by (simp add: MagicSize_eq)
qed

lemma Encode_sample: "Encode sample_registry sample_transform = Inr sample_blob"
  by (simp add: Encode_def TypeOf_def sample_registry_def sample_transform_def sample_blob_def
      registerCAS_def empty_registry_def TransformOp_def json_Encode_def quote_string_def Let_def
      escape_char_def
      magic_def tab_def typeField_def casNS_def dquote_def newline_def backslash_def)

theorem MagicSize_layout_witness:
  "Encode sample_registry sample_transform = Inr sample_blob
   \<and> take MagicSize sample_blob = magic \<and> sample_blob ! MagicSize = CHR '' ''
   \<and> type_value_offset sample_blob = Some 12"
  using MagicSize_layout [OF Encode_sample] Encode_sample by simp

text \<open>
  Claim C5, as stated, fails: in the encoding of a transform record the opening quote of
  the type name is not at offset \<open>MagicSize\<close>, and the first \<open>MagicSize\<close> bytes are not the
  bytes before that quote (the space after the colon is missing from them).
\<close>

theorem MagicSize_counterexample:
  "Encode sample_registry sample_transform = Inr sample_blob
   \<and> type_value_offset sample_blob \<noteq> Some MagicSize
   \<and> take MagicSize sample_blob \<noteq> take (the (type_value_offset sample_blob)) sample_blob"
  using Encode_sample
  by (simp add: type_value_offset_def sample_blob_def MagicSize_eq dquote_def newline_def)

subsection \<open>Peeking at the type\<close>

text \<open>When \<open>PeekType\<close> returns no error, the reader it returns is the one it was given.\<close>

lemma PeekType_restores:
  assumes "PeekType r = (ro, tn, None)"
  shows "ro = Some r"
proof (cases "checkSchema r")
  case (Inl err)
  with assms show ?thesis by (simp add: PeekType_def)
next
  case (Inr r1)
  then have r1: "r1 = r"
    by (auto simp: checkSchema_def ReadFull_def MultiReader_def split: if_splits)
  show ?thesis
  proof (cases "maxSize \<le> length (avail r)")
    case True
    with assms Inr r1 show ?thesis
      by (simp add: PeekType_def decodeType_large)
  next
    case False
    with assms Inr r1 show ?thesis
      by (auto simp: PeekType_def decodeType_def ReadAll_LimitReader_def MultiReader_def
          split: if_splits sum.splits)
  qed
qed

lemma json_object_bad: "json_object (magic @ ''x'') = None"
  by (simp add: json_object_def skip_space_def is_space_def magic_def tab_def typeField_def
      dquote_def newline_def members.simps [of "CHR 0x0A # _"] backslash_def)

text \<open>
  Claim C4 at two streams. For compact JSON without the magic, \<open>PeekType\<close> returns a nil
  reader with \<open>ErrNotSchema\<close>, so nothing can be decoded from it, while \<open>Decode\<close> on the
  stream itself reports \<open>ErrNotSchema\<close>. For the magic followed by a byte that is not JSON,
  \<open>PeekType\<close> returns an empty reader: \<open>Decode\<close> on it reports \<open>ErrNotSchema\<close>, while
  \<open>Decode\<close> on the stream itself reports the syntax error.
\<close>

theorem PeekType_loses_reader:
  "PeekType (NewReader pin_json) = (None, [], Some ErrNotSchema)
   \<and> Decode empty_registry (NewReader pin_json) = Inl ErrNotSchema
   \<and> PeekType (NewReader (magic @ ''x'')) = (Some (NewReader []), [], Some SyntaxError)
   \<and> Decode empty_registry (NewReader (magic @ ''x''))
       = Inl (Errorf ''cannot decode schema object: invalid character'')
   \<and> Decode empty_registry (NewReader []) = Inl ErrNotSchema"
proof -
  have a: "checkSchema (NewReader pin_json) = Inl ErrNotSchema"
    by (rule checkSchema_mismatch)
      (simp_all add: NewReader_def pin_json_def MagicSize_eq magic_def tab_def typeField_def
        dquote_def newline_def)
  have b: "checkSchema (NewReader (magic @ ''x'')) = Inr (NewReader (magic @ ''x''))"
    by (rule checkSchema_ok) (simp add: NewReader_def IsSchema_magic_append)
  have c: "decodeType (NewReader (magic @ ''x'')) = (Inl SyntaxError, NewReader [])"
    using decodeType_small [of "NewReader (magic @ ''x'')"] json_object_bad
    by (simp add: NewReader_def magic_length MagicSize_eq maxSize_def json_Unmarshal_def)
  have d: "checkSchema (NewReader []) = Inl ErrNotSchema"
    by (rule checkSchema_short) (simp_all add: NewReader_def MagicSize_eq)
  show ?thesis using a b c d
    by (simp add: PeekType_def Decode_def DecodeJSON_def decode_def MultiReader_def NewReader_def)
qed

subsection \<open>Hashing a file\<close>

text \<open>
  Claim C10. When the file opens, the memoized entry is not used (the lookup fails or
  yields a zero Ref, or \<open>force\<close> is set) and the file is read to its end, \<open>HashWith\<close> returns
  the hash of the bytes and their number, whatever \<open>SaveRefFile\<close> returns; the error of
  \<open>SaveRefFile\<close> is only logged.
\<close>

theorem HashWith_swallows_save_error:
  assumes "os_Open env = Inr f"
    and "force \<or> (case StatFile env of Inl err \<Rightarrow> True | Inr sr \<Rightarrow> Zero (Ref sr))"
    and "fin f = EOF"
    and "length (avail f) < 2 ^ 63"
  shows "fst (HashWith hash Zero env force)
           = Inr \<lparr>Ref = hash (avail f), Size = of_nat (length (avail f))\<rparr>
         \<and> unat (of_nat (length (avail f)) :: 64 word) = length (avail f)
         \<and> snd (HashWith hash Zero env force)
           = (case SaveRefFile env of Some err \<Rightarrow> [err] | None \<Rightarrow> [])"
proof -
  have "unat (of_nat (length (avail f)) :: 64 word) = length (avail f)"
    using assms(4) by (simp add: unat_of_nat)
  then show ?thesis using assms(1-3)
    by (auto simp: HashWith_def io_Copy_def Let_def split: sum.splits option.splits)
qed

theorem HashWith_swallows_save_error_witness:
  "os_Open sample_hash_env = Inr (NewReader ''hello'')
   \<and> SaveRefFile sample_hash_env = Some (Errorf ''cannot save ref'')
   \<and> HashWith rev (\<lambda>r. r = []) sample_hash_env False
       = (Inr \<lparr>Ref = ''olleh'', Size = 5\<rparr>, [Errorf ''cannot save ref''])"
proof -
  have o: "os_Open sample_hash_env = Inr (NewReader ''hello'')"
    by (simp add: sample_hash_env_def)
  have m: "False \<or> (case StatFile sample_hash_env of Inl err \<Rightarrow> True
                     | Inr sr \<Rightarrow> (\<lambda>r. r = []) (Ref sr))"
    by (simp add: sample_hash_env_def)
  have e: "fin (NewReader ''hello'') = EOF"
    by (simp add: NewReader_def)
  have l: "length (avail (NewReader ''hello'')) < 2 ^ 63"
    by (simp add: NewReader_def)
  show ?thesis
    using HashWith_swallows_save_error [OF o m e l, of rev] o
    by (simp add: NewReader_def sample_hash_env_def prod_eq_iff)
qed

subsection \<open>Commit\<close>

lemma Commit_exists:
  assumes "tmpf tf = Some tmp" "SaveRefFile_err env = None" "Fchmod_err env = None"
    "name \<in> set (map fst (blobDir s))"
  shows "Commit env name (tf, s) = (None, tf\<lparr>tmpf := None\<rparr>, s)"
  using assms by (simp add: Commit_def linkFile_def Linkat_def IsExist_def)

lemma stored_distinct:
  assumes "distinct (map fst dir)" "name \<in> set (map fst dir)"
  shows "length (filter (\<lambda>e. fst e = name) dir) = 1"
  using assms
proof (induction dir)
  case Nil
  then show ?case by simp
next
  case (Cons e dir)
  show ?case
  proof (cases "fst e = name")
    case True
    with Cons.prems have "name \<notin> set (map fst dir)" by auto
    then have "filter (\<lambda>e. fst e = name) dir = []"
      by (auto simp: filter_empty_conv)
    with True show ?thesis by simp
  next
    case False
    with Cons show ?thesis by auto
  qed
qed

lemma Commit_success_linked:
  assumes "Commit env name (tf, s) = (None, tf', s')"
    and "Linkat_fault env \<noteq> Some EEXIST" "Linkat_fault env \<noteq> Some ENOTEMPTY"
    and "distinct (map fst (blobDir s))"
  shows "name \<in> set (map fst (blobDir s')) \<and> distinct (map fst (blobDir s'))"
  using assms
  by (auto simp: Commit_def linkFile_def Linkat_def IsExist_def Let_def
      split: option.splits if_splits prod.splits)

lemma Commit_ok_empty:
  "Commit ok_env ''abc'' (staged, empty_store)
     = (None, \<lparr>tmpf = None\<rparr>, \<lparr>blobDir = [(''abc'', \<lparr>content = ''hello'', perm = roPerm\<rparr>)]\<rparr>)"
  by (simp add: Commit_def ok_env_def staged_def empty_store_def linkFile_def Linkat_def)

text \<open>
  Claim C1. After a first successful \<open>Commit\<close> under a name, a second \<open>Commit\<close> under the
  same name that reaches the link step finds the name taken: \<open>linkFile\<close> reports
  \<open>ErrExist\<close>, \<open>Commit\<close> returns nil and leaves the store as it was, with exactly one blob
  under the name.
\<close>

theorem Commit_twice:
  assumes "distinct (map fst (blobDir s))"
    and "Commit env1 name (tf1, s) = (None, tf1', s1)"
    and "Linkat_fault env1 \<noteq> Some EEXIST" "Linkat_fault env1 \<noteq> Some ENOTEMPTY"
    and "tmpf tf2 = Some tmp2"
    and "SaveRefFile_err env2 = None" "Fchmod_err env2 = None"
  shows "linkFile (Linkat_fault env2) (blobDir s1) name (tmp2\<lparr>perm := roPerm\<rparr>)
           = (Some ErrExist, blobDir s1)
         \<and> Commit env2 name (tf2, s1) = (None, tf2\<lparr>tmpf := None\<rparr>, s1)
         \<and> stored s1 name = 1"
proof -
  from Commit_success_linked [OF assms(2,3,4,1)]
  have mem: "name \<in> set (map fst (blobDir s1))" and dist: "distinct (map fst (blobDir s1))"
    by simp_all
  have "linkFile (Linkat_fault env2) (blobDir s1) name (tmp2\<lparr>perm := roPerm\<rparr>)
           = (Some ErrExist, blobDir s1)"
    using mem by (simp add: linkFile_def Linkat_def)
  moreover have "Commit env2 name (tf2, s1) = (None, tf2\<lparr>tmpf := None\<rparr>, s1)"
    using Commit_exists [OF assms(5,6,7) mem] .
  moreover have "stored s1 name = 1"
    unfolding stored_def using stored_distinct [OF dist mem] .
  ultimately show ?thesis by simp
qed

theorem Commit_twice_witness:
  "Commit ok_env ''abc'' (staged, empty_store)
     = (None, \<lparr>tmpf = None\<rparr>, \<lparr>blobDir = [(''abc'', \<lparr>content = ''hello'', perm = roPerm\<rparr>)]\<rparr>)
   \<and> Commit ok_env ''abc''
        (staged, \<lparr>blobDir = [(''abc'', \<lparr>content = ''hello'', perm = roPerm\<rparr>)]\<rparr>)
     = (None, \<lparr>tmpf = None\<rparr>, \<lparr>blobDir = [(''abc'', \<lparr>content = ''hello'', perm = roPerm\<rparr>)]\<rparr>)
   \<and> stored \<lparr>blobDir = [(''abc'', \<lparr>content = ''hello'', perm = roPerm\<rparr>)]\<rparr> ''abc'' = 1"
proof -
  have d: "distinct (map fst (blobDir empty_store))"
    by (simp add: empty_store_def)
  have f1: "Linkat_fault ok_env \<noteq> Some EEXIST" "Linkat_fault ok_env \<noteq> Some ENOTEMPTY"
    by (simp_all add: ok_env_def)
  have t: "tmpf staged = Some \<lparr>content = ''hello'', perm = 6 * 64\<rparr>"
    by (simp add: staged_def)
  have e: "SaveRefFile_err ok_env = None" "Fchmod_err ok_env = None"
    by (simp_all add: ok_env_def)
  show ?thesis
    using Commit_twice [OF d Commit_ok_empty f1 t e] Commit_ok_empty
    by (simp add: staged_def)
qed

text \<open>
  Claim C2, as stated, fails: when the link succeeds and \<open>addNotIndexed\<close> then fails,
  \<open>Commit\<close> returns the error and the blob stays published under the name, in a blob
  directory that was empty before.
\<close>

theorem Commit_error_counterexample:
  "fst (Commit lost_index_env ''abc'' (staged, empty_store)) = Some (Errorf ''cannot index'')
   \<and> blobDir (snd (snd (Commit lost_index_env ''abc'' (staged, empty_store))))
       = [(''abc'', \<lparr>content = ''hello'', perm = roPerm\<rparr>)]
   \<and> blobDir empty_store = []"
  by (simp add: Commit_def lost_index_env_def staged_def empty_store_def linkFile_def Linkat_def)

text \<open>
  Claim C2, as the code has it. When \<open>Commit\<close> returns an error and \<open>SaveRefFile\<close>,
  \<open>Fchmod\<close> or the link failed, the blob directory is unchanged. When these steps
  succeed on an open temp file and the name is free, the link is created; an error of
  \<open>addNotIndexed\<close>, or else of the final \<open>Close\<close>, is then returned by \<open>Commit\<close> with the
  blob published under the name: the new entry stays in the blob directory. These are the
  only errors that come with a changed blob directory.
\<close>

theorem Commit_error_store:
  "(Commit env name (tf, s) = (Some err, tf', s') \<longrightarrow>
      ((SaveRefFile_err env \<noteq> None \<or> Fchmod_err env \<noteq> None \<or> Linkat_fault env \<noteq> None
          \<or> name \<in> set (map fst (blobDir s)))
         \<longrightarrow> blobDir s' = blobDir s)
      \<and> (blobDir s' = blobDir s
           \<or> (name \<notin> set (map fst (blobDir s))
               \<and> (\<exists>tmp. tmpf tf = Some tmp
                     \<and> blobDir s' = blobDir s @ [(name, tmp\<lparr>perm := roPerm\<rparr>)])
               \<and> (addNotIndexed_err env = Some err
                    \<or> (addNotIndexed_err env = None \<and> Close_err env = Some err)))))
   \<and> (tmpf tf = Some tmp \<and> SaveRefFile_err env = None \<and> Fchmod_err env = None
        \<and> Linkat_fault env = None \<and> name \<notin> set (map fst (blobDir s))
        \<and> (addNotIndexed_err env = Some err
             \<or> (addNotIndexed_err env = None \<and> Close_err env = Some err))
      \<longrightarrow> Commit env name (tf, s)
            = (Some err, tf\<lparr>tmpf := None\<rparr>,
               s\<lparr>blobDir := blobDir s @ [(name, tmp\<lparr>perm := roPerm\<rparr>)]\<rparr>)
          \<and> stored (snd (snd (Commit env name (tf, s)))) name = 1)"
proof -
  have A: "blobDir s' = blobDir s"
    if "Commit env name (tf, s) = (Some err, tf', s')"
      and "SaveRefFile_err env \<noteq> None \<or> Fchmod_err env \<noteq> None \<or> Linkat_fault env \<noteq> None
           \<or> name \<in> set (map fst (blobDir s))"
    using that
    by (auto simp: Commit_def linkFile_def Linkat_def IsExist_def Let_def
        split: option.splits if_splits prod.splits)
  have B: "blobDir s' = blobDir s
           \<or> (name \<notin> set (map fst (blobDir s))
               \<and> (\<exists>tmp. tmpf tf = Some tmp
                     \<and> blobDir s' = blobDir s @ [(name, tmp\<lparr>perm := roPerm\<rparr>)])
               \<and> (addNotIndexed_err env = Some err
                    \<or> (addNotIndexed_err env = None \<and> Close_err env = Some err)))"
    if "Commit env name (tf, s) = (Some err, tf', s')"
    using that
    by (auto simp: Commit_def linkFile_def Linkat_def IsExist_def Let_def
        split: option.splits if_splits prod.splits)
  have C: "Commit env name (tf, s)
            = (Some err, tf\<lparr>tmpf := None\<rparr>,
               s\<lparr>blobDir := blobDir s @ [(name, tmp\<lparr>perm := roPerm\<rparr>)]\<rparr>)
          \<and> stored (snd (snd (Commit env name (tf, s)))) name = 1"
    if "tmpf tf = Some tmp" "SaveRefFile_err env = None" "Fchmod_err env = None"
      "Linkat_fault env = None" "name \<notin> set (map fst (blobDir s))"
      "addNotIndexed_err env = Some err
       \<or> (addNotIndexed_err env = None \<and> Close_err env = Some err)"
  proof -
    have "filter (\<lambda>e. fst e = name) (blobDir s) = []"
      using that(5) by (auto simp: filter_empty_conv)
    then show ?thesis using that
      by (auto simp: Commit_def linkFile_def Linkat_def stored_def)
  qed
  show ?thesis using A B C by blast
qed

theorem Commit_error_store_witness:
  "Commit fchmod_fails_env ''abc'' (staged, empty_store)
     = (Some (Errorf ''fchmod: permission denied''), \<lparr>tmpf = None\<rparr>, empty_store)
   \<and> Fchmod_err fchmod_fails_env \<noteq> None
   \<and> blobDir (snd (snd (Commit fchmod_fails_env ''abc'' (staged, empty_store)))) = blobDir empty_store
   \<and> tmpf staged = Some \<lparr>content = ''hello'', perm = 6 * 64\<rparr>
   \<and> SaveRefFile_err close_fails_env = None \<and> Fchmod_err close_fails_env = None
   \<and> Linkat_fault close_fails_env = None \<and> ''abc'' \<notin> set (map fst (blobDir empty_store))
   \<and> addNotIndexed_err close_fails_env = None
   \<and> Close_err close_fails_env = Some (Errno EIO)
   \<and> Commit close_fails_env ''abc'' (staged, empty_store)
       = (Some (Errno EIO), \<lparr>tmpf = None\<rparr>,
          \<lparr>blobDir = [(''abc'', \<lparr>content = ''hello'', perm = roPerm\<rparr>)]\<rparr>)
   \<and> stored (snd (snd (Commit close_fails_env ''abc'' (staged, empty_store)))) ''abc'' = 1"
proof -
  have c: "Commit fchmod_fails_env ''abc'' (staged, empty_store)
     = (Some (Errorf ''fchmod: permission denied''), \<lparr>tmpf = None\<rparr>, empty_store)"
    by (simp add: Commit_def fchmod_fails_env_def staged_def empty_store_def)
  have h: "tmpf staged = Some \<lparr>content = ''hello'', perm = 6 * 64\<rparr>
     \<and> SaveRefFile_err close_fails_env = None \<and> Fchmod_err close_fails_env = None
     \<and> Linkat_fault close_fails_env = None \<and> ''abc'' \<notin> set (map fst (blobDir empty_store))
     \<and> (addNotIndexed_err close_fails_env = Some (Errno EIO)
          \<or> (addNotIndexed_err close_fails_env = None
              \<and> Close_err close_fails_env = Some (Errno EIO)))"
    by (simp add: staged_def close_fails_env_def empty_store_def)
  show ?thesis
    using Commit_error_store [of fchmod_fails_env "''abc''" staged empty_store
        "Errorf ''fchmod: permission denied''" "\<lparr>tmpf = None\<rparr>" empty_store
        "\<lparr>content = ''hello'', perm = 6 * 64\<rparr>"]
      Commit_error_store [of close_fails_env "''abc''" staged empty_store
        "Errno EIO" "\<lparr>tmpf = None\<rparr>" empty_store
        "\<lparr>content = ''hello'', perm = 6 * 64\<rparr>"]
      c h
    by (simp add: fchmod_fails_env_def close_fails_env_def staged_def empty_store_def stored_def)
qed

subsection \<open>The strategy flag\<close>

lemma step_flag: "noTmpFile s \<noteq> 0 \<Longrightarrow> noTmpFile (tmpFile_step ev s) \<noteq> 0"
  by (cases ev) (auto simp: tmpFile_step_def split: pc.splits option.splits)

lemma run_flag: "noTmpFile s \<noteq> 0 \<Longrightarrow> noTmpFile (run evs s) \<noteq> 0"
  unfolding run_def
  by (induction evs arbitrary: s) (simp_all add: step_flag)

lemma step_pc:
  assumes "noTmpFile s \<noteq> 0" "pcs s u \<noteq> Opening" "pcs s u \<noteq> Storing"
  shows "pcs (tmpFile_step ev s) u = pcs s u \<or> pcs (tmpFile_step ev s) u = Returned Fallback"
  using assms
  by (cases ev) (auto simp: tmpFile_step_def split: pc.splits option.splits)

lemma run_pc:
  assumes "noTmpFile s \<noteq> 0" "pcs s u \<noteq> Opening" "pcs s u \<noteq> Storing"
  shows "pcs (run evs s) u = pcs s u \<or> pcs (run evs s) u = Returned Fallback"
  using assms
proof (induction evs arbitrary: s)
  case Nil
  then show ?case by (simp add: run_def)
next
  case (Cons ev evs)
  have r: "run (ev # evs) s = run evs (tmpFile_step ev s)"
    by (simp add: run_def)
  from step_pc [OF Cons.prems, of ev]
  have st: "pcs (tmpFile_step ev s) u = pcs s u \<or> pcs (tmpFile_step ev s) u = Returned Fallback" .
  then have a: "pcs (tmpFile_step ev s) u \<noteq> Opening" "pcs (tmpFile_step ev s) u \<noteq> Storing"
    using Cons.prems by auto
  from Cons.IH [OF step_flag [OF Cons.prems(1)] a]
  show ?case using st r by auto
qed

lemma step_opens:
  assumes "noTmpFile s \<noteq> 0" "\<forall>u. pcs s u \<noteq> Opening"
  shows "opens (tmpFile_step ev s) = opens s \<and> (\<forall>u. pcs (tmpFile_step ev s) u \<noteq> Opening)"
  using assms
  by (cases ev) (auto simp: tmpFile_step_def split: pc.splits option.splits)

lemma run_opens:
  assumes "noTmpFile s \<noteq> 0" "\<forall>u. pcs s u \<noteq> Opening"
  shows "opens (run evs s) = opens s"
  using assms
proof (induction evs arbitrary: s)
  case Nil
  then show ?case by (simp add: run_def)
next
  case (Cons ev evs)
  have r: "run (ev # evs) s = run evs (tmpFile_step ev s)"
    by (simp add: run_def)
  from step_opens [OF Cons.prems, of ev] Cons.IH [OF step_flag [OF Cons.prems(1)]]
  show ?case using r by simp
qed

text \<open>
  A call by a goroutine that is not in the middle of one starts with the load of the
  flag, and does nothing else in that action: with the flag set it returns the fallback
  strategy at once, otherwise it goes on to the open.
\<close>

lemma call_reads_flag:
  assumes "pcs s t \<noteq> Opening" "pcs s t \<noteq> Storing"
  shows "tmpFile_step (t, res) s
         = s\<lparr>pcs := (pcs s)(t := if noTmpFile s \<noteq> 0 then Returned Fallback else Opening)\<rparr>"
  using assms by (auto simp: tmpFile_step_def split: pc.splits)

text \<open>
  Claim C9. The condition that switches the strategy is \<open>EISDIR\<close> from the anonymous open:
  it leads to the store, and the store sets the flag to 1. (\<open>EOPNOTSUPP\<close> makes that one
  call fall back and leaves the flag as it is.) Once the flag is not zero it stays so under
  every interleaving of further actions. Every call reads the flag first; every call that
  starts after the flag was set, whatever its goroutine did before and whatever happened
  in between, returns the fallback strategy in that action, without attempting the
  anonymous open. A goroutine that is not in the middle of a call then only ever holds
  its old result or the fallback strategy, and when no goroutine is between its load and
  its open, the anonymous open is never attempted again.
\<close>

theorem noTmpFile_sticky:
  "(pcs s t = Opening \<longrightarrow> pcs (tmpFile_step (t, Some EISDIR) s) t = Storing)
   \<and> (pcs s t = Storing \<longrightarrow> noTmpFile (tmpFile_step (t, res) s) = 1)
   \<and> (noTmpFile s \<noteq> 0 \<longrightarrow> noTmpFile (run evs s) \<noteq> 0)
   \<and> (noTmpFile s \<noteq> 0 \<and> pcs s u \<noteq> Opening \<and> pcs s u \<noteq> Storing
        \<longrightarrow> pcs (run evs s) u = pcs s u \<or> pcs (run evs s) u = Returned Fallback)
   \<and> (noTmpFile s \<noteq> 0 \<and> (\<forall>v. pcs s v \<noteq> Opening) \<longrightarrow> opens (run evs s) = opens s)
   \<and> (pcs s t \<noteq> Opening \<and> pcs s t \<noteq> Storing
        \<longrightarrow> tmpFile_step (t, res) s
            = s\<lparr>pcs := (pcs s)(t := if noTmpFile s \<noteq> 0 then Returned Fallback else Opening)\<rparr>)
   \<and> (noTmpFile s \<noteq> 0 \<and> pcs (run evs s) u \<noteq> Opening \<and> pcs (run evs s) u \<noteq> Storing
        \<longrightarrow> pcs (tmpFile_step (u, res) (run evs s)) u = Returned Fallback
            \<and> opens (tmpFile_step (u, res) (run evs s)) = opens (run evs s)
            \<and> noTmpFile (tmpFile_step (u, res) (run evs s)) = noTmpFile (run evs s))
   \<and> (pcs s t = Opening
        \<longrightarrow> pcs (tmpFile_step (t, Some EOPNOTSUPP) s) t = Returned Fallback
            \<and> noTmpFile (tmpFile_step (t, Some EOPNOTSUPP) s) = noTmpFile s)"
proof -
  have later: "pcs (tmpFile_step (u, res) (run evs s)) u = Returned Fallback
            \<and> opens (tmpFile_step (u, res) (run evs s)) = opens (run evs s)
            \<and> noTmpFile (tmpFile_step (u, res) (run evs s)) = noTmpFile (run evs s)"
    if "noTmpFile s \<noteq> 0" "pcs (run evs s) u \<noteq> Opening" "pcs (run evs s) u \<noteq> Storing"
    using call_reads_flag [OF that(2,3), of res] run_flag [OF that(1), of evs] by simp
  have call: "tmpFile_step (t, res) s
            = s\<lparr>pcs := (pcs s)(t := if noTmpFile s \<noteq> 0 then Returned Fallback else Opening)\<rparr>"
    if "pcs s t \<noteq> Opening" "pcs s t \<noteq> Storing"
    using that by (rule call_reads_flag)
  have rest: "(pcs s t = Opening \<longrightarrow> pcs (tmpFile_step (t, Some EISDIR) s) t = Storing)
   \<and> (pcs s t = Storing \<longrightarrow> noTmpFile (tmpFile_step (t, res) s) = 1)
   \<and> (pcs s t = Opening
        \<longrightarrow> pcs (tmpFile_step (t, Some EOPNOTSUPP) s) t = Returned Fallback
            \<and> noTmpFile (tmpFile_step (t, Some EOPNOTSUPP) s) = noTmpFile s)"
    by (auto simp: tmpFile_step_def)
  show ?thesis
    using run_flag [of s evs] run_pc [of s u evs] run_opens [of s evs] later call rest
    by blast
qed

lemma opening0_eq: "opening0 = \<lparr>noTmpFile = 0, pcs = (\<lambda>t. Idle)(0 := Opening), opens = 0\<rparr>"
  by (simp add: opening0_def run_def proc_init_def tmpFile_step_def)

lemma storing0_eq: "storing0 = \<lparr>noTmpFile = 0, pcs = (\<lambda>t. Idle)(0 := Storing), opens = 1\<rparr>"
  by (simp add: storing0_def run_def proc_init_def tmpFile_step_def)

lemma switched_eq:
  "switched = \<lparr>noTmpFile = 1, pcs = (\<lambda>t. Idle)(0 := Returned Fallback), opens = 1\<rparr>"
  by (simp add: switched_def run_def proc_init_def tmpFile_step_def)

text \<open>
  \<open>EOPNOTSUPP\<close> makes the one call fall back and leaves the flag alone: the next call of
  the goroutine tries the anonymous open again.
\<close>

lemma EOPNOTSUPP_one_call:
  "pcs (run [(0, None), (0, Some EOPNOTSUPP)] proc_init) 0 = Returned Fallback
   \<and> noTmpFile (run [(0, None), (0, Some EOPNOTSUPP)] proc_init) = 0
   \<and> pcs (run [(0, None), (0, Some EOPNOTSUPP), (0, None)] proc_init) 0 = Opening"
  by (simp add: run_def proc_init_def tmpFile_step_def)

theorem noTmpFile_sticky_witness:
  "pcs opening0 0 = Opening
   \<and> pcs (tmpFile_step (0, Some EISDIR) opening0) 0 = Storing
   \<and> pcs storing0 0 = Storing
   \<and> noTmpFile (tmpFile_step (0, None) storing0) = 1
   \<and> noTmpFile switched \<noteq> 0 \<and> pcs switched 1 = Idle \<and> (\<forall>v. pcs switched v \<noteq> Opening)
   \<and> noTmpFile (run [(1, None), (1, None), (0, None)] switched) \<noteq> 0
   \<and> pcs (run [(1, None), (1, None), (0, None)] switched) 1 = Returned Fallback
   \<and> opens (run [(1, None), (1, None), (0, None)] switched) = opens switched
   \<and> pcs switched 0 = Returned Fallback
   \<and> tmpFile_step (0, None) switched = switched
   \<and> pcs (run [(1, None)] switched) 1 \<noteq> Opening \<and> pcs (run [(1, None)] switched) 1 \<noteq> Storing
   \<and> pcs (tmpFile_step (1, None) (run [(1, None)] switched)) 1 = Returned Fallback
   \<and> opens (tmpFile_step (1, None) (run [(1, None)] switched)) = opens (run [(1, None)] switched)
   \<and> pcs (tmpFile_step (0, Some EOPNOTSUPP) opening0) 0 = Returned Fallback
   \<and> noTmpFile (tmpFile_step (0, Some EOPNOTSUPP) opening0) = noTmpFile opening0"
proof -
  have a: "pcs opening0 0 = Opening" by (simp add: opening0_eq)
  have b: "pcs storing0 0 = Storing" by (simp add: storing0_eq)
  have c: "noTmpFile switched \<noteq> 0" by (simp add: switched_eq)
  have d: "pcs switched 1 = Idle" by (simp add: switched_eq)
  have e: "\<forall>v. pcs switched v \<noteq> Opening" by (simp add: switched_eq)
  have f: "pcs (run [(1, None), (1, None), (0, None)] switched) 1 = Returned Fallback"
    by (simp add: switched_eq run_def tmpFile_step_def)
  have g: "pcs switched 0 = Returned Fallback" by (simp add: switched_eq)
  have h: "pcs (run [(1, None)] switched) 1 \<noteq> Opening \<and> pcs (run [(1, None)] switched) 1 \<noteq> Storing"
    by (simp add: switched_eq run_def tmpFile_step_def)
  have i: "switched\<lparr>pcs := (pcs switched)(0 := Returned Fallback)\<rparr> = switched"
    by (simp add: switched_eq)
  show ?thesis
    using noTmpFile_sticky [where s = opening0 and t = 0 and res = None and evs = "[]" and u = 0]
      noTmpFile_sticky [where s = storing0 and t = 0 and res = None and evs = "[]" and u = 0]
      noTmpFile_sticky [where s = switched and t = 0 and res = None
        and evs = "[(1, None), (1, None), (0, None)]" and u = 1]
      noTmpFile_sticky [where s = switched and t = 0 and res = None
        and evs = "[(1, None)]" and u = 1]
      a b c d e f g h i
    by simp
qed

subsection \<open>The round trip\<close>

text \<open>The decoder reads back what the encoder wrote.\<close>

declare members.simps [simp del]




lemma skip_space_nil [simp]: "skip_space [] = []"
  by (simp add: skip_space_def)

lemma skip_space_dquote [simp]: "skip_space (dquote # s) = dquote # s"
  by (simp add: skip_space_def is_space_def dquote_def)

lemma skip_space_tab [simp]: "skip_space (tab @ s) = skip_space s"
  by (simp add: skip_space_def is_space_def tab_def)

lemma skip_space_nl [simp]: "skip_space (newline # s) = skip_space s"
  by (simp add: skip_space_def is_space_def newline_def)

lemma skip_space_sp [simp]: "skip_space (CHR '' '' # s) = skip_space s"
  by (simp add: skip_space_def is_space_def)

lemma skip_space_punct [simp]:
  "skip_space (CHR '':'' # s) = CHR '':'' # s"
  "skip_space (CHR '','' # s) = CHR '','' # s"
  "skip_space (CHR ''}'' # s) = CHR ''}'' # s"
  "skip_space (CHR ''{'' # s) = CHR ''{'' # s"
  by (simp_all add: skip_space_def is_space_def)





























end
